theory Spec2Isabelle
  imports Main
begin

section \<open>Texts and numbers of the host language\<close>

text \<open>
  The program is TypeScript; its texts are sequences of 16-bit code units. A \<^typ>\<open>char\<close>
  of the model stands for the code unit of the same number, so the texts of the model are
  the texts over U+0000 .. U+00FF, and \<^const>\<open>length\<close> is the \<^verbatim>\<open>length\<close> property.
  The three emoji of the mode table lie outside that range and are kept as a datatype.

  Numbers are modelled as integers plus \<^verbatim>\<open>NaN\<close>. The source computes with IEEE doubles,
  which agree with exact integer arithmetic on values of magnitude up to \<open>2^53 - 1\<close>.
\<close>

definition isWhiteSpace :: "char \<Rightarrow> bool" where
  \<comment> \<open>the class \<^verbatim>\<open>\s\<close>, also what \<^verbatim>\<open>trim\<close> strips: tab, LF, VT, FF, CR, space, NBSP\<close>
  "isWhiteSpace c = (c \<in> set [CHR 0x09, CHR 0x0A, CHR 0x0B, CHR 0x0C, CHR 0x0D, CHR 0x20, CHR 0xA0])"

definition trim :: "string \<Rightarrow> string" where
  "trim s = rev (dropWhile isWhiteSpace (rev (dropWhile isWhiteSpace s)))"

definition toLowerCase_char :: "char \<Rightarrow> char" where
  "toLowerCase_char c =
     (let n = (of_char c :: nat)
      in if (65 \<le> n \<and> n \<le> 90) \<or> (192 \<le> n \<and> n \<le> 222 \<and> n \<noteq> 215)
         then char_of (n + 32) else c)"

definition toLowerCase :: "string \<Rightarrow> string" where
  "toLowerCase s = map toLowerCase_char s"

fun startsWith :: "string \<Rightarrow> string \<Rightarrow> bool" where
  "startsWith s [] = True"
| "startsWith [] (p # ps) = False"
| "startsWith (c # cs) (p # ps) = (c = p \<and> startsWith cs ps)"

fun js_includes :: "string \<Rightarrow> string \<Rightarrow> bool" where
  "js_includes [] search = (search = [])"
| "js_includes (c # cs) search = (startsWith (c # cs) search \<or> js_includes cs search)"

fun indexOf_from :: "string \<Rightarrow> char \<Rightarrow> nat \<Rightarrow> int" where
  "indexOf_from [] x i = -1"
| "indexOf_from (c # cs) x i = (if c = x then int i else indexOf_from cs x (Suc i))"

definition indexOf :: "string \<Rightarrow> char \<Rightarrow> int" where
  "indexOf s x = indexOf_from s x 0"

definition substring :: "string \<Rightarrow> nat \<Rightarrow> nat \<Rightarrow> string" where
  \<comment> \<open>\<^verbatim>\<open>s.substring(a, b)\<close> for \<open>a \<le> b\<close>, the only way the source calls it\<close>
  "substring s a b = take (b - a) (drop a s)"

fun js_split :: "char \<Rightarrow> string \<Rightarrow> string list" where
  "js_split sep [] = [[]]"
| "js_split sep (c # cs) =
     (if c = sep then [] # js_split sep cs
      else (case js_split sep cs of [] \<Rightarrow> [[c]] | p # ps \<Rightarrow> (c # p) # ps))"

datatype number = Num int | NaN

definition digit_char :: "nat \<Rightarrow> char" where
  "digit_char d = ''0123456789'' ! d"

function decimal :: "nat \<Rightarrow> string" where
  "decimal n = (if n < 10 then [digit_char n] else decimal (n div 10) @ [digit_char (n mod 10)])"
  by pat_completeness auto
termination
  by (relation "measure (\<lambda>n. n)") auto

declare decimal.simps [simp del]

fun number_toString :: "number \<Rightarrow> string" where
  \<comment> \<open>what a template literal renders for a number\<close>
  "number_toString NaN = ''NaN''"
| "number_toString (Num n) = (if n < 0 then CHR ''-'' # decimal (nat (- n)) else decimal (nat n))"

fun multiply :: "number \<Rightarrow> number \<Rightarrow> number" where
  \<comment> \<open>the operator \<^verbatim>\<open>*\<close>: a product with \<^verbatim>\<open>NaN\<close> is \<^verbatim>\<open>NaN\<close>\<close>
  "multiply (Num a) (Num b) = Num (a * b)"
| "multiply _ _ = NaN"

definition digit_value :: "char \<Rightarrow> nat option" where
  "digit_value c =
     (let n = (of_char c :: nat)
      in if 48 \<le> n \<and> n \<le> 57 then Some (n - 48)
         else if 97 \<le> n \<and> n \<le> 102 then Some (n - 87)
         else if 65 \<le> n \<and> n \<le> 70 then Some (n - 55)
         else None)"

definition is_digit :: "nat \<Rightarrow> char \<Rightarrow> bool" where
  "is_digit radix c = (case digit_value c of None \<Rightarrow> False | Some d \<Rightarrow> d < radix)"

definition digits_value :: "nat \<Rightarrow> string \<Rightarrow> nat" where
  "digits_value radix z = foldl (\<lambda>acc c. acc * radix + the (digit_value c)) 0 z"

definition parseInt :: "string \<Rightarrow> number" where
  \<comment> \<open>\<^verbatim>\<open>parseInt(s)\<close> with no radix: leading white space, a sign, a hexadecimal prefix,
      then the longest run of digits; \<^verbatim>\<open>NaN\<close> when that run is empty\<close>
  "parseInt s =
     (let s1 = dropWhile isWhiteSpace s;
          sign = (if startsWith s1 ''-'' then - 1 else 1 :: int);
          s2 = (if startsWith s1 ''-'' \<or> startsWith s1 ''+'' then drop 1 s1 else s1);
          hex = (startsWith s2 ''0x'' \<or> startsWith s2 ''0X'');
          radix = (if hex then 16 else 10 :: nat);
          s3 = (if hex then drop 2 s2 else s2);
          z = takeWhile (is_digit radix) s3
      in if z = [] then NaN else Num (sign * int (digits_value radix z)))"

definition parseInt_at :: "string list \<Rightarrow> nat \<Rightarrow> number" where
  \<comment> \<open>\<^verbatim>\<open>parseInt(parts[i])\<close>; a missing part is \<^verbatim>\<open>undefined\<close>, which parses to \<^verbatim>\<open>NaN\<close>\<close>
  "parseInt_at parts i = (if i < length parts then parseInt (parts ! i) else NaN)"

section \<open>Response events and the accumulated text\<close>

text \<open>
  An event carries a type tag and a content, which is a text, a list of tagged items, or
  anything else. A list item is a content block of the agent library, with its tag and
  its text.
\<close>

record content_item =
  item_type :: string
  item_text :: string

datatype content = Str string | Items "content_item list" | Other

record event =
  event_type :: string
  event_content :: content

definition append_item :: "string \<Rightarrow> content_item \<Rightarrow> string" where
  "append_item fullResponse item =
     (if item_type item = ''text'' then fullResponse @ item_text item else fullResponse)"

definition on_event :: "string \<Rightarrow> event \<Rightarrow> string" where
  "on_event fullResponse ev =
     (if event_type ev = ''text'' then
        (case event_content ev of Str s \<Rightarrow> fullResponse @ s | _ \<Rightarrow> fullResponse)
      else if event_type ev = ''message'' then
        (case event_content ev of
           Str s \<Rightarrow> fullResponse @ s
         | Items items \<Rightarrow> foldl append_item fullResponse items
         | Other \<Rightarrow> fullResponse)
      else fullResponse)"

definition consume :: "event list \<Rightarrow> string" where
  \<comment> \<open>the \<^verbatim>\<open>for await\<close> loop, started with the empty text\<close>
  "consume events = foldl on_event [] events"

text \<open>The textual contribution of one event, in the words of the specification.\<close>

definition item_contribution :: "content_item \<Rightarrow> string" where
  "item_contribution item = (if item_type item = ''text'' then item_text item else [])"

definition contribution :: "event \<Rightarrow> string" where
  "contribution ev =
     (case event_content ev of
        Str s \<Rightarrow> (if event_type ev = ''text'' \<or> event_type ev = ''message'' then s else [])
      | Items items \<Rightarrow>
          (if event_type ev = ''message'' then concat (map item_contribution items) else [])
      | Other \<Rightarrow> [])"

section \<open>The balanced-JSON extractor\<close>

text \<open>
  The scan of the source runs over the text from \<^verbatim>\<open>jsonStart\<close> on, with the index \<open>i\<close>
  and the counter \<^verbatim>\<open>braceCount\<close>; it yields \<^verbatim>\<open>jsonEnd\<close>, which stays \<open>-1\<close> when the counter
  never comes back to zero.
\<close>

fun scan :: "string \<Rightarrow> nat \<Rightarrow> int \<Rightarrow> int" where
  "scan [] i braceCount = - 1"
| "scan (c # cs) i braceCount =
     (let braceCount1 = (if c = CHR ''{'' then braceCount + 1 else braceCount)
      in if c = CHR ''}'' then
           (if braceCount1 - 1 = 0 then int i else scan cs (Suc i) (braceCount1 - 1))
         else scan cs (Suc i) braceCount1)"

datatype extraction = NoCandidate | Incomplete | Candidate string

definition extractJson :: "string \<Rightarrow> extraction" where
  "extractJson fullResponse =
     (let jsonStart = indexOf fullResponse (CHR ''{'')
      in if jsonStart \<noteq> - 1 then
           (let jsonEnd = scan (drop (nat jsonStart) fullResponse) (nat jsonStart) 0
            in if jsonEnd \<noteq> - 1
               then Candidate (substring fullResponse (nat jsonStart) (nat (jsonEnd + 1)))
               else Incomplete)
         else NoCandidate)"

text \<open>
  The notions of the specification. With \<open>k\<close> braces open before it, a text is well
  nested when each of its closing braces has an open brace to close and no brace is left
  open at its end; a balanced object is an opening brace, a well nested text and a closing
  brace. The depth of a text is the number of its opening braces less the number of its
  closing ones.
\<close>

fun well_nested_from :: "nat \<Rightarrow> string \<Rightarrow> bool" where
  "well_nested_from k [] = (k = 0)"
| "well_nested_from k (c # cs) =
     (if c = CHR ''{'' then well_nested_from (Suc k) cs
      else if c = CHR ''}'' then 0 < k \<and> well_nested_from (k - 1) cs
      else well_nested_from k cs)"

definition well_nested :: "string \<Rightarrow> bool" where
  "well_nested u = well_nested_from 0 u"

definition depth :: "string \<Rightarrow> int" where
  "depth w = int (length (filter (\<lambda>c. c = CHR ''{'') w)) - int (length (filter (\<lambda>c. c = CHR ''}'') w))"

definition never_closes :: "string \<Rightarrow> bool" where
  \<comment> \<open>no non-empty prefix has depth zero\<close>
  "never_closes w = list_all (\<lambda>n. depth (take n w) \<noteq> 0) [1 ..< Suc (length w)]"

section \<open>The travel request, the mode table and the budget\<close>

text \<open>
  The request is the parsed body of the HTTP request, with the fields and types of the
  \<^verbatim>\<open>TravelRequest\<close> of the tool module; the duration and the travelers are integers. Its
  budget may be absent; as a property key and in a template an absent value reads
  \<^verbatim>\<open>undefined\<close>.
\<close>

record travel_request =
  destination :: string
  duration :: int
  travelers :: int
  budget :: "string option"
  interests :: "string list"
  food_preference :: "string option"
  mobility :: string

definition key_text :: "string option \<Rightarrow> string" where
  "key_text v = (case v of None \<Rightarrow> ''undefined'' | Some s \<Rightarrow> s)"

text \<open>
  Both tables are object literals, so a key that is not their own is looked up in
  \<^verbatim>\<open>Object.prototype\<close>. A member found there is a built-in function, which is truthy: the
  \<^verbatim>\<open>||\<close> of the source then keeps it and does not fall back to the default. The members
  listed are those of every host; the accessor \<^verbatim>\<open>__proto__\<close>, which the Deno runtime of
  this program removes, is not among them.
\<close>

datatype 'a property = Own 'a | Inherited string | Undefined

definition Object_prototype :: "string list" where
  "Object_prototype =
     [''constructor'', ''hasOwnProperty'', ''isPrototypeOf'', ''propertyIsEnumerable'',
      ''toLocaleString'', ''toString'', ''valueOf'',
      ''__defineGetter__'', ''__defineSetter__'', ''__lookupGetter__'', ''__lookupSetter__'']"

definition get_property :: "(string \<times> 'a) list \<Rightarrow> string \<Rightarrow> 'a property" where
  "get_property obj key =
     (case map_of obj key of
        Some v \<Rightarrow> Own v
      | None \<Rightarrow> if key \<in> set Object_prototype then Inherited key else Undefined)"

datatype js_value = JString string | JNumber number | JBuiltin string

definition builtin_source :: "string \<Rightarrow> string" where
  \<comment> \<open>the text the engine renders for a built-in function\<close>
  "builtin_source key =
     ''function '' @ (if key = ''constructor'' then ''Object'' else key) @ ''() { [native code] }''"

fun to_text :: "js_value \<Rightarrow> string" where
  "to_text (JString s) = s"
| "to_text (JNumber n) = number_toString n"
| "to_text (JBuiltin key) = builtin_source key"

definition budgetToMode :: "(string \<times> string) list" where
  "budgetToMode =
     [(''budget'', ''Going with the Flow''),
      (''moderate'', ''Moderate Explorer''),
      (''luxury'', ''Intense Adventure'')]"

definition selectedMode :: "travel_request \<Rightarrow> js_value" where
  "selectedMode r =
     (case get_property budgetToMode (key_text (budget r)) of
        Own s \<Rightarrow> JString s
      | Inherited key \<Rightarrow> JBuiltin key
      | Undefined \<Rightarrow> JString ''Moderate Explorer'')"

datatype emoji = Water_Wave | Balance_Scale | Fire

record mode_profile =
  name :: string
  emoji :: emoji
  attractions :: string
  pace :: string
  daily :: string

definition budget_profile :: mode_profile where
  "budget_profile = \<lparr>name = ''Going with the Flow'', emoji = Water_Wave, attractions = ''2-3'',
     pace = ''Relaxed'', daily = ''$80-120''\<rparr>"

definition moderate_profile :: mode_profile where
  "moderate_profile = \<lparr>name = ''Moderate Explorer'', emoji = Balance_Scale, attractions = ''4-5'',
     pace = ''Balanced'', daily = ''$120-180''\<rparr>"

definition luxury_profile :: mode_profile where
  "luxury_profile = \<lparr>name = ''Intense Adventure'', emoji = Fire, attractions = ''6-8'',
     pace = ''Fast-paced'', daily = ''$180-250''\<rparr>"

definition modeDetails :: "(string \<times> mode_profile) list" where
  "modeDetails =
     [(''budget'', budget_profile), (''moderate'', moderate_profile), (''luxury'', luxury_profile)]"

definition mode :: "travel_request \<Rightarrow> mode_profile property" where
  \<comment> \<open>\<^verbatim>\<open>modeDetails[travelRequest.budget] || modeDetails.moderate\<close>\<close>
  "mode r =
     (case get_property modeDetails (key_text (budget r)) of
        Own p \<Rightarrow> Own p
      | Inherited key \<Rightarrow> Inherited key
      | Undefined \<Rightarrow> Own moderate_profile)"

definition flexibility_of :: "travel_request \<Rightarrow> string" where
  "flexibility_of r =
     (if budget r = Some ''budget'' then ''High''
      else if budget r = Some ''moderate'' then ''Medium'' else ''Low'')"

definition totalBudget :: "string \<Rightarrow> int \<Rightarrow> string" where
  "totalBudget daily_band days =
     (let dailyBudgetRange = js_split (CHR ''-'') (remove1 (CHR ''$'') daily_band)
      in ''$'' @ number_toString (multiply (parseInt_at dailyBudgetRange 0) (Num days))
         @ ''-'' @ number_toString (multiply (parseInt_at dailyBudgetRange 1) (Num days)))"

datatype js_error = Error string | SyntaxError string | TypeError string

fun message :: "js_error \<Rightarrow> string" where
  "message (Error m) = m"
| "message (SyntaxError m) = m"
| "message (TypeError m) = m"

definition no_daily :: js_error where
  \<comment> \<open>reading \<^verbatim>\<open>mode.daily.replace\<close> when \<^verbatim>\<open>mode\<close> is a built-in, which has no \<^verbatim>\<open>daily\<close>\<close>
  "no_daily = TypeError (''Cannot read properties of undefined (reading '' @ [CHR 0x27]
     @ ''replace'' @ [CHR 0x27] @ '')'')"

definition budget_of :: "travel_request \<Rightarrow> js_error + (mode_profile \<times> string)" where
  \<comment> \<open>the three lines every synthetic tier starts with: the mode and the total budget\<close>
  "budget_of r =
     (case mode r of
        Own p \<Rightarrow> Inr (p, totalBudget (daily p) (duration r))
      | _ \<Rightarrow> Inl no_daily)"

definition MAX_SAFE_INTEGER :: int where
  "MAX_SAFE_INTEGER = 2 ^ 53 - 1"

section \<open>The task composer\<close>

definition nl :: string where
  "nl = [CHR 0x0A]"

fun join :: "string \<Rightarrow> string list \<Rightarrow> string" where
  "join sep [] = []"
| "join sep [x] = x"
| "join sep (x # y # ys) = x @ sep @ join sep (y # ys)"

definition or_Any :: "string option \<Rightarrow> string" where
  \<comment> \<open>\<^verbatim>\<open>travelRequest.food_preference || "Any"\<close>: absent and empty are both falsy\<close>
  "or_Any v = (case v of None \<Rightarrow> ''Any'' | Some s \<Rightarrow> if s = [] then ''Any'' else s)"

definition task :: "travel_request \<Rightarrow> string" where
  "task r =
     ''Create a '' @ to_text (selectedMode r) @ '' travel plan for '' @ destination r
       @ '' ('' @ number_toString (Num (duration r)) @ '' days, ''
       @ number_toString (Num (travelers r)) @ '' travelers).'' @ nl
     @ nl
     @ ''Budget: '' @ key_text (budget r) @ nl
     @ ''Interests: '' @ join '', '' (interests r) @ nl
     @ ''Food: '' @ or_Any (food_preference r) @ nl
     @ ''Transport: '' @ mobility r @ nl
     @ nl
     @ ''Generate a detailed day-by-day itinerary with attractions, restaurants, timing, and costs.'' @ nl
     @ nl
     @ ''Use the travel_plan_generator tool to create this plan.'' @ nl
     @ nl
     @ ''Make sure to use the available MCP servers (Firecrawl for research, Notion for potential saving) and provide detailed, actionable travel plans.''"

section \<open>The patterns of the relaxed parse and of the field recovery\<close>

text \<open>
  \<^verbatim>\<open>/"travel_plan"\s*:\s*\{[^}]*\}/\<close>. No part of this pattern can match where the part
  before it gave a character back, so the match at a position is found in one pass; the
  search takes the leftmost position that matches and returns the matched text.
\<close>

definition travel_plan_here :: "string \<Rightarrow> string option" where
  \<open>travel_plan_here s =
     (if startsWith s ''"travel_plan"'' then
        (let r1 = drop 13 s;
             ws1 = takeWhile isWhiteSpace r1;
             r2 = dropWhile isWhiteSpace r1
         in if startsWith r2 '':'' then
              (let r3 = drop 1 r2;
                   ws2 = takeWhile isWhiteSpace r3;
                   r4 = dropWhile isWhiteSpace r3
               in if startsWith r4 ''{'' then
                    (let inner = takeWhile (\<lambda>c. c \<noteq> CHR ''}'') (drop 1 r4);
                         r5 = dropWhile (\<lambda>c. c \<noteq> CHR ''}'') (drop 1 r4)
                     in if startsWith r5 ''}''
                        then Some (''"travel_plan"'' @ ws1 @ '':'' @ ws2 @ ''{'' @ inner @ ''}'')
                        else None)
                  else None)
            else None)
      else None)\<close>

fun travelPlanMatch :: "string \<Rightarrow> string option" where
  "travelPlanMatch [] = None"
| "travelPlanMatch (c # cs) =
     (case travel_plan_here (c # cs) of
        Some m \<Rightarrow> Some m
      | None \<Rightarrow> travelPlanMatch cs)"

text \<open>
  \<^verbatim>\<open>/label['":\s]*([^,\n"'}]+)/i\<close>, for the labels \<^verbatim>\<open>destination\<close>, \<^verbatim>\<open>duration\<close> and
  \<^verbatim>\<open>mode\<close>. The label is matched without regard to case. The starred class takes as many
  characters as it can and gives them back one at a time until the group finds at least
  one character; the group then takes as many as it can. The result is the group of the
  leftmost match.
\<close>

definition label_sep :: "char \<Rightarrow> bool" where
  \<open>label_sep c = (c = CHR 0x27 \<or> c = CHR ''"'' \<or> c = CHR '':'' \<or> isWhiteSpace c)\<close>

definition value_char :: "char \<Rightarrow> bool" where
  \<open>value_char c = (c \<noteq> CHR '','' \<and> c \<noteq> CHR 0x0A \<and> c \<noteq> CHR ''"'' \<and> c \<noteq> CHR 0x27 \<and> c \<noteq> CHR ''}'')\<close>

fun group_after :: "nat \<Rightarrow> string \<Rightarrow> string option" where
  "group_after 0 rest =
     (let g = takeWhile value_char rest in if g \<noteq> [] then Some g else None)"
| "group_after (Suc k) rest =
     (let g = takeWhile value_char (drop (Suc k) rest)
      in if g \<noteq> [] then Some g else group_after k rest)"

definition label_here :: "string \<Rightarrow> string \<Rightarrow> string option" where
  "label_here label s =
     (if toLowerCase (take (length label) s) = label then
        (let rest = drop (length label) s
         in group_after (length (takeWhile label_sep rest)) rest)
      else None)"

fun label_match :: "string \<Rightarrow> string \<Rightarrow> string option" where
  "label_match label [] = label_here label []"
| "label_match label (c # cs) =
     (case label_here label (c # cs) of
        Some g \<Rightarrow> Some g
      | None \<Rightarrow> label_match label cs)"

definition strip_quotes :: "string \<Rightarrow> string" where
  \<comment> \<open>\<^verbatim>\<open>.replace(/['"]/g, '')\<close>\<close>
  \<open>strip_quotes s = filter (\<lambda>c. c \<noteq> CHR 0x27 \<and> c \<noteq> CHR ''"'') s\<close>

definition extracted :: "string \<Rightarrow> string \<Rightarrow> string option" where
  "extracted label fullResponse = map_option (\<lambda>g. strip_quotes (trim g)) (label_match label fullResponse)"

section \<open>The fallback synthesizer\<close>

record plan =
  mode_name :: string
  mode_emoji :: emoji
  daily_attractions :: string
  pace :: string
  daily_budget :: string
  total_budget :: string
  flexibility :: string
  description :: string
  detailed_plan :: string

datatype debug_info =
    Debug_text nat bool "string option"
      \<comment> \<open>\<^verbatim>\<open>response_length\<close>, \<^verbatim>\<open>has_destination\<close>, \<^verbatim>\<open>budget_selected\<close>\<close>
  | Debug_empty nat string "string option"
      \<comment> \<open>\<^verbatim>\<open>response_length\<close>, \<^verbatim>\<open>task_sent\<close>, \<^verbatim>\<open>budget_selected\<close>\<close>
  | Debug_fallback nat string js_value js_value js_value bool bool
      \<comment> \<open>\<^verbatim>\<open>response_length\<close>, \<^verbatim>\<open>parse_error\<close>, the \<^verbatim>\<open>extracted_info\<close> (\<^verbatim>\<open>destination\<close>,
          \<^verbatim>\<open>duration\<close>, \<^verbatim>\<open>mode\<close>), \<^verbatim>\<open>json_extraction_failed\<close>, \<^verbatim>\<open>using_full_response_as_plan\<close>\<close>

record plan_data =
  plans :: "plan list"
  selected_mode :: string
  full_ai_response :: string
  debug_info :: debug_info

text \<open>
  \<^verbatim>\<open>planData\<close> is either what \<^verbatim>\<open>JSON.parse\<close> returned or an object the synthesizer built.
  \<^verbatim>\<open>JSON.parse\<close> is the host's; the synthesizer takes it as a parameter that returns the
  parsed value, or the message of the \<^verbatim>\<open>SyntaxError\<close> it throws.
\<close>

datatype 'j planData = Parsed 'j | Built plan_data

type_synonym 'j parser = "string \<Rightarrow> string + 'j"

definition parse_candidate :: "'j parser \<Rightarrow> string \<Rightarrow> js_error + 'j" where
  \<comment> \<open>the strict parse, and in its \<^verbatim>\<open>catch\<close> the relaxed parse of the \<^verbatim>\<open>travel_plan\<close> object\<close>
  "parse_candidate parse jsonStr =
     (case parse jsonStr of
        Inr v \<Rightarrow> Inr v
      | Inl parseError \<Rightarrow>
          (case travelPlanMatch jsonStr of
             Some m \<Rightarrow>
               (let simplifiedJson = ''{'' @ m @ ''}''
                in case parse simplifiedJson of
                     Inr v \<Rightarrow> Inr v
                   | Inl e \<Rightarrow> Inl (SyntaxError e))
           | None \<Rightarrow> Inl (SyntaxError parseError)))"

definition plan_of :: "mode_profile \<Rightarrow> string \<Rightarrow> travel_request \<Rightarrow> string \<Rightarrow> string \<Rightarrow> plan" where
  \<comment> \<open>the plan literal, which the three synthetic tiers fill in the same way but for
      its last two fields\<close>
  "plan_of p tb r descr detail =
     \<lparr>mode_name = name p, mode_emoji = emoji p, daily_attractions = attractions p,
      pace = mode_profile.pace p, daily_budget = daily p, total_budget = tb,
      flexibility = flexibility_of r, description = descr, detailed_plan = detail\<rparr>"

definition from_text :: "string \<Rightarrow> travel_request \<Rightarrow> js_error + plan_data" where
  \<comment> \<open>no brace in a non-empty response\<close>
  "from_text fullResponse r =
     (case budget_of r of
        Inl e \<Rightarrow> Inl e
      | Inr (p, tb) \<Rightarrow>
          Inr \<lparr>plans =
                 [plan_of p tb r
                    (''Customized '' @ toLowerCase (name p) @ '' plan for your '' @ key_text (budget r)
                       @ '' budget and preferences.'')
                    fullResponse],
               selected_mode = name p,
               full_ai_response = fullResponse,
               debug_info = Debug_text (length fullResponse)
                 (js_includes fullResponse (destination r)) (budget r)\<rparr>)"

definition from_nothing :: "travel_request \<Rightarrow> js_error + plan_data" where
  \<comment> \<open>the empty response\<close>
  "from_nothing r =
     (case budget_of r of
        Inl e \<Rightarrow> Inl e
      | Inr (p, tb) \<Rightarrow>
          Inr \<lparr>plans =
                 [plan_of p tb r
                    (name p @ '' plan for your '' @ key_text (budget r) @ '' budget.'')
                    (''Sample plan for '' @ destination r @ '' - AI response was empty'')],
               selected_mode = name p,
               full_ai_response = ''No AI response received'',
               debug_info = Debug_empty 0 (substring (task r) 0 200 @ ''...'') (budget r)\<rparr>)"

definition try_block :: "'j parser \<Rightarrow> string \<Rightarrow> travel_request \<Rightarrow> js_error + 'j planData" where
  "try_block parse fullResponse r =
     (case extractJson fullResponse of
        Candidate jsonStr \<Rightarrow> map_sum id Parsed (parse_candidate parse jsonStr)
      | Incomplete \<Rightarrow> Inl (Error ''Incomplete JSON in response'')
      | NoCandidate \<Rightarrow>
          map_sum id Built
            (if length fullResponse > 0 then from_text fullResponse r else from_nothing r))"

definition fallback_plan ::
  "js_error \<Rightarrow> string \<Rightarrow> travel_request \<Rightarrow> js_value \<Rightarrow> js_value \<Rightarrow> js_value \<Rightarrow> js_error + plan_data" where
  \<comment> \<open>the second half of the \<^verbatim>\<open>catch\<close> block, from the three recovered values on\<close>
  "fallback_plan parseError fullResponse r extractedDestination extractedDuration extractedMode =
     (case budget_of r of
        Inl e \<Rightarrow> Inl e
      | Inr (p, tb) \<Rightarrow>
          Inr \<lparr>plans =
                 [plan_of p tb r
                    (''AI-generated '' @ toLowerCase (name p) @ '' plan for '' @ to_text extractedDestination)
                    fullResponse],
               selected_mode = name p,
               full_ai_response = fullResponse,
               debug_info = Debug_fallback (length fullResponse) (message parseError)
                 extractedDestination extractedDuration extractedMode True True\<rparr>)"

definition extractedDestination :: "string \<Rightarrow> travel_request \<Rightarrow> js_value" where
  "extractedDestination fullResponse r =
     (case extracted ''destination'' fullResponse of
        Some s \<Rightarrow> JString s
      | None \<Rightarrow> JString (destination r))"

definition extractedDuration :: "string \<Rightarrow> travel_request \<Rightarrow> js_value" where
  "extractedDuration fullResponse r =
     (case extracted ''duration'' fullResponse of
        Some s \<Rightarrow> JString s
      | None \<Rightarrow> JNumber (Num (duration r)))"

definition extractedMode :: "string \<Rightarrow> travel_request \<Rightarrow> js_value" where
  "extractedMode fullResponse r =
     (case extracted ''mode'' fullResponse of
        Some s \<Rightarrow> JString s
      | None \<Rightarrow> selectedMode r)"

definition catch_block :: "js_error \<Rightarrow> string \<Rightarrow> travel_request \<Rightarrow> js_error + plan_data" where
  "catch_block parseError fullResponse r =
     fallback_plan parseError fullResponse r
       (extractedDestination fullResponse r)
       (extractedDuration fullResponse r)
       (extractedMode fullResponse r)"

definition synthesize :: "'j parser \<Rightarrow> string \<Rightarrow> travel_request \<Rightarrow> js_error + 'j planData" where
  \<comment> \<open>the \<^verbatim>\<open>try\<close> and its \<^verbatim>\<open>catch\<close>: \<^verbatim>\<open>Inr\<close> is the \<^verbatim>\<open>planData\<close> the handler goes on with,
      \<^verbatim>\<open>Inl\<close> an error that leaves the \<^verbatim>\<open>catch\<close> block\<close>
  "synthesize parse fullResponse r =
     (case try_block parse fullResponse r of
        Inr planData \<Rightarrow> Inr planData
      | Inl parseError \<Rightarrow> map_sum id Built (catch_block parseError fullResponse r))"

datatype 'j response =
    Plan_response "'j planData"
  | Error_response string string
      \<comment> \<open>status 500 with \<^verbatim>\<open>error\<close> and \<^verbatim>\<open>details\<close>\<close>

definition generate_plans :: "'j parser \<Rightarrow> event list \<Rightarrow> travel_request \<Rightarrow> 'j response" where
  \<comment> \<open>the handler of \<^verbatim>\<open>/api/generate-plans\<close>, from the parsed request and the events of the
      agent's run to the response\<close>
  "generate_plans parse events r =
     (case synthesize parse (consume events) r of
        Inr planData \<Rightarrow> Plan_response planData
      | Inl e \<Rightarrow> Error_response ''Failed to generate plans'' (message e))"

section \<open>A reading of \<^verbatim>\<open>JSON.parse\<close>\<close>

text \<open>
  A parser for the JSON grammar, to run the synthesizer on concrete texts. It returns the
  syntax tree of the text: numbers and the contents of strings are kept as they are
  written, and the members of an object in their order. On a text that is not JSON it
  reports the position at which it stopped, where the engine words its message in its
  own way. The recursion carries a bound on its depth, set above twice the length of the
  text, which is more than any text uses.
\<close>

datatype json =
    Null
  | Bool bool
  | Numeral string
  | Quoted string
  | Array "json list"
  | Object "(string \<times> json) list"

definition json_ws :: "char \<Rightarrow> bool" where
  "json_ws c = (c = CHR 0x20 \<or> c = CHR 0x09 \<or> c = CHR 0x0A \<or> c = CHR 0x0D)"

definition is_decimal_digit :: "char \<Rightarrow> bool" where
  "is_decimal_digit c = is_digit 10 c"

fun string_body :: "string \<Rightarrow> string + (string \<times> string)" where
  \<open>string_body [] = Inl []\<close>
| \<open>string_body (c # cs) =
     (if c = CHR ''"'' then Inr ([], cs)
      else if c = CHR 0x5C then
        (case cs of
           [] \<Rightarrow> Inl []
         | e # es \<Rightarrow>
             if e \<in> set ''"/bfnrt'' \<or> e = CHR 0x5C
                \<or> (e = CHR ''u'' \<and> 4 \<le> length es \<and> list_all (is_digit 16) (take 4 es))
             then map_sum id (\<lambda>(b, rest). (c # e # b, rest)) (string_body es)
             else Inl (e # es))
      else if (of_char c :: nat) < 32 then Inl (c # cs)
      else map_sum id (\<lambda>(b, rest). (c # b, rest)) (string_body cs))\<close>

definition digits1 :: "string \<Rightarrow> string + (string \<times> string)" where
  \<comment> \<open>one decimal digit or more\<close>
  "digits1 s =
     (if takeWhile is_decimal_digit s = [] then Inl s
      else Inr (takeWhile is_decimal_digit s, dropWhile is_decimal_digit s))"

definition number_token :: "string \<Rightarrow> string + (string \<times> string)" where
  "number_token s =
     (let sgn = (if startsWith s ''-'' then ''-'' else []);
          s0 = drop (length sgn) s
      in case (if startsWith s0 ''0'' then Inr (''0'', drop 1 s0) else digits1 s0) of
           Inl rest \<Rightarrow> Inl rest
         | Inr (ip, s1) \<Rightarrow>
             (case (if startsWith s1 ''.''
                    then map_sum id (\<lambda>(ds, rest). (CHR ''.'' # ds, rest)) (digits1 (drop 1 s1))
                    else Inr ([], s1)) of
                Inl rest \<Rightarrow> Inl rest
              | Inr (fp, s2) \<Rightarrow>
                  (if startsWith s2 ''e'' \<or> startsWith s2 ''E'' then
                     (let s3 = drop 1 s2;
                          es = (if startsWith s3 ''+'' \<or> startsWith s3 ''-'' then take 1 s3 else [])
                      in map_sum id (\<lambda>(ds, rest). (sgn @ ip @ fp @ take 1 s2 @ es @ ds, rest))
                           (digits1 (drop (length es) s3)))
                   else Inr (sgn @ ip @ fp, s2))))"

fun parse_value :: "nat \<Rightarrow> string \<Rightarrow> string + (json \<times> string)"
  and parse_members :: "nat \<Rightarrow> string \<Rightarrow> string + ((string \<times> json) list \<times> string)"
  and parse_elements :: "nat \<Rightarrow> string \<Rightarrow> string + (json list \<times> string)" where
  "parse_value 0 s = Inl s"
| \<open>parse_value (Suc n) s =
     (let s1 = dropWhile json_ws s
      in if startsWith s1 ''{'' then
           (let s2 = dropWhile json_ws (drop 1 s1)
            in if startsWith s2 ''}'' then Inr (Object [], drop 1 s2)
               else map_sum id (\<lambda>(ms, rest). (Object ms, rest)) (parse_members n s2))
         else if startsWith s1 ''['' then
           (let s2 = dropWhile json_ws (drop 1 s1)
            in if startsWith s2 '']'' then Inr (Array [], drop 1 s2)
               else map_sum id (\<lambda>(vs, rest). (Array vs, rest)) (parse_elements n s2))
         else if startsWith s1 ''"'' then
           map_sum id (\<lambda>(b, rest). (Quoted b, rest)) (string_body (drop 1 s1))
         else if startsWith s1 ''true'' then Inr (Bool True, drop 4 s1)
         else if startsWith s1 ''false'' then Inr (Bool False, drop 5 s1)
         else if startsWith s1 ''null'' then Inr (Null, drop 4 s1)
         else if startsWith s1 ''-'' then
           map_sum id (\<lambda>(t, rest). (Numeral t, rest)) (number_token s1)
         else if takeWhile is_decimal_digit s1 = [] then Inl s1
         else map_sum id (\<lambda>(t, rest). (Numeral t, rest)) (number_token s1))\<close>
| "parse_members 0 s = Inl s"
| \<open>parse_members (Suc n) s =
     (if startsWith s ''"'' then
        (case string_body (drop 1 s) of
           Inl rest \<Rightarrow> Inl rest
         | Inr (k, s1) \<Rightarrow>
             (let s2 = dropWhile json_ws s1
              in if startsWith s2 '':'' then
                   (case parse_value n (drop 1 s2) of
                      Inl rest \<Rightarrow> Inl rest
                    | Inr (v, s3) \<Rightarrow>
                        (let s4 = dropWhile json_ws s3
                         in if startsWith s4 '','' then
                              map_sum id (\<lambda>(ms, rest). ((k, v) # ms, rest))
                                (parse_members n (dropWhile json_ws (drop 1 s4)))
                            else if startsWith s4 ''}'' then Inr ([(k, v)], drop 1 s4)
                            else Inl s4))
                 else Inl s2))
      else Inl s)\<close>
| "parse_elements 0 s = Inl s"
| \<open>parse_elements (Suc n) s =
     (case parse_value n s of
        Inl rest \<Rightarrow> Inl rest
      | Inr (v, s1) \<Rightarrow>
          (let s2 = dropWhile json_ws s1
           in if startsWith s2 '','' then
                map_sum id (\<lambda>(vs, rest). (v # vs, rest)) (parse_elements n (drop 1 s2))
              else if startsWith s2 '']'' then Inr ([v], drop 1 s2)
              else Inl s2))\<close>

definition syntax_error_at :: "nat \<Rightarrow> string" where
  "syntax_error_at pos = ''Unexpected token in JSON at position '' @ decimal pos"

definition JSON_parse :: "json parser" where
  "JSON_parse s =
     (case parse_value (Suc (2 * length s)) s of
        Inl rest \<Rightarrow> Inl (syntax_error_at (length s - length rest))
      | Inr (v, rest) \<Rightarrow>
          (let rest1 = dropWhile json_ws rest
           in if rest1 = [] then Inr v else Inl (syntax_error_at (length s - length rest1))))"

section \<open>Notions of the specification about requests and results\<close>

definition valid_budget :: "travel_request \<Rightarrow> bool" where
  \<comment> \<open>the budget is one of the three tiers of the enumeration\<close>
  "valid_budget r =
     (budget r = Some ''budget'' \<or> budget r = Some ''moderate'' \<or> budget r = Some ''luxury'')"

fun parse_error :: "debug_info \<Rightarrow> string option" where
  "parse_error (Debug_fallback n e d u m f g) = Some e"
| "parse_error _ = None"

fun extracted_info :: "debug_info \<Rightarrow> (js_value \<times> js_value \<times> js_value) option" where
  "extracted_info (Debug_fallback n e d u m f g) = Some (d, u, m)"
| "extracted_info _ = None"

definition budget_fields :: "plan \<Rightarrow> string \<times> string \<times> string \<times> string \<times> string \<times> string" where
  "budget_fields p =
     (daily_budget p, total_budget p, mode_name p, pace p, daily_attractions p, flexibility p)"

fun built_plans :: "'j planData \<Rightarrow> plan list" where
  \<comment> \<open>the plans of a result the synthesizer built\<close>
  "built_plans (Built pd) = plans pd"
| "built_plans (Parsed v) = []"

definition outside_description :: "plan_data \<Rightarrow> plan list \<times> string \<times> string" where
  \<comment> \<open>a result without its description and its debug info\<close>
  "outside_description pd =
     (map (\<lambda>p. p\<lparr>description := []\<rparr>) (plans pd), selected_mode pd, full_ai_response pd)"

definition tokyo :: travel_request where
  "tokyo = \<lparr>destination = ''Tokyo'', duration = 3, travelers = 2, budget = Some ''luxury'',
     interests = [''food'', ''temples''], food_preference = None, mobility = ''public_transport''\<rparr>"

definition text_event :: "string \<Rightarrow> event" where
  "text_event s = \<lparr>event_type = ''text'', event_content = Str s\<rparr>"

section \<open>The stream consumer\<close>

lemma foldl_append_item:
  "foldl append_item acc items = acc @ concat (map item_contribution items)"
  by (induction items arbitrary: acc) (simp_all add: append_item_def item_contribution_def)

lemma on_event_contribution: "on_event acc ev = acc @ contribution ev"
  by (cases "event_content ev")
    (simp_all add: on_event_def contribution_def foldl_append_item)

lemma foldl_on_event:
  "foldl on_event acc events = acc @ concat (map contribution events)"
  by (induction events arbitrary: acc) (simp_all add: on_event_contribution)

text \<open>
  C7. The accumulated text is the concatenation, in arrival order, of the textual
  contributions of all events: nothing is skipped and nothing is reordered.
\<close>

theorem consume_is_concatenation:
  "consume events = concat (map contribution events)"
  by (simp add: consume_def foldl_on_event)

section \<open>The extractor finds the balanced object\<close>

lemma indexOf_from_absent: "x \<notin> set s \<Longrightarrow> indexOf_from s x i = - 1"
  by (induction s arbitrary: i) auto

lemma indexOf_from_first:
  "x \<notin> set pre \<Longrightarrow> indexOf_from (pre @ x # rest) x i = int (i + length pre)"
  by (induction pre arbitrary: i) auto

lemma scan_well_nested:
  "well_nested_from k u \<Longrightarrow> scan (u @ CHR ''}'' # post) i (int k + 1) = int (i + length u)"
proof (induction u arbitrary: k i)
  case Nil
  then show ?case by simp
next
  case (Cons c cs)
  show ?case
  proof (cases "c = CHR ''{''")
    case True
    with Cons.prems have "well_nested_from (Suc k) cs" by simp
    from Cons.IH [OF this, of "Suc i"] True show ?thesis by (simp add: add.commute)
  next
    case False
    show ?thesis
    proof (cases "c = CHR ''}''")
      case True
      with Cons.prems have k: "0 < k" and "well_nested_from (k - 1) cs" by simp_all
      from Cons.IH [OF this(2), of "Suc i"] k True show ?thesis by simp
    next
      case no: False
      with False Cons.prems have "well_nested_from k cs" by simp
      from Cons.IH [OF this, of "Suc i"] False no show ?thesis by simp
    qed
  qed
qed

lemma depth_Cons:
  "depth (c # w) = (if c = CHR ''{'' then 1 else if c = CHR ''}'' then - 1 else 0) + depth w"
  by (simp add: depth_def)

lemma scan_never_zero:
  "(\<And>n. 0 < n \<Longrightarrow> n \<le> length w \<Longrightarrow> b + depth (take n w) \<noteq> 0) \<Longrightarrow> scan w i b = - 1"
proof (induction w arbitrary: i b)
  case Nil
  show ?case by simp
next
  case (Cons c cs)
  let ?d = "if c = CHR ''{'' then 1 else if c = CHR ''}'' then - 1 else (0::int)"
  have first: "b + ?d \<noteq> 0"
    using Cons.prems [of 1] by (auto simp: depth_def split: if_splits)
  have rest: "scan cs (Suc i) (b + ?d) = - 1"
  proof (rule Cons.IH)
    fix n assume "0 < n" "n \<le> length cs"
    then show "b + ?d + depth (take n cs) \<noteq> 0"
      using Cons.prems [of "Suc n"] by (simp add: depth_Cons add.assoc)
  qed
  from first rest show ?case by (auto simp: Let_def split: if_splits)
qed

lemma never_closes_iff:
  "never_closes w \<longleftrightarrow> (\<forall>n. 0 < n \<and> n \<le> length w \<longrightarrow> depth (take n w) \<noteq> 0)"
  by (auto simp: never_closes_def list_all_iff Suc_le_eq less_Suc_eq_le)

text \<open>Well nested, said with the depth: no prefix goes below zero and the whole ends at zero.\<close>

lemma depth_Nil: "depth [] = 0"
  by (simp add: depth_def)

lemma well_nested_from_depth:
  "well_nested_from k u \<longleftrightarrow>
     int k + depth u = 0 \<and> (\<forall>n \<le> length u. 0 \<le> int k + depth (take n u))"
proof (induction u arbitrary: k)
  case Nil
  show ?case by (auto simp: depth_Nil)
next
  case (Cons c cs)
  have all_Suc: "\<And>P. (\<forall>n \<le> Suc (length cs). P n) \<longleftrightarrow> P 0 \<and> (\<forall>n \<le> length cs. P (Suc n))"
    by (metis Suc_le_mono le0 not0_implies_Suc)
  show ?case
  proof (cases "c = CHR ''{''")
    case True
    then show ?thesis
      using Cons.IH [of "Suc k"] by (simp add: depth_Cons depth_Nil all_Suc algebra_simps)
  next
    case False
    show ?thesis
    proof (cases "c = CHR ''}''")
      case True
      show ?thesis
      proof (cases k)
        case 0
        have "\<not> (\<forall>n \<le> length (c # cs). 0 \<le> int k + depth (take n (c # cs)))"
          using True 0 by (auto simp: depth_Cons depth_Nil intro!: exI [of _ 1])
        with True 0 show ?thesis by simp
      next
        case (Suc j)
        with True False show ?thesis
          using Cons.IH [of j] by (simp add: depth_Cons depth_Nil all_Suc algebra_simps)
      qed
    next
      case other: False
      with False show ?thesis
        using Cons.IH [of k] by (simp add: depth_Cons depth_Nil all_Suc algebra_simps)
    qed
  qed
qed

lemma well_nested_depth:
  "well_nested u \<longleftrightarrow> depth u = 0 \<and> (\<forall>n \<le> length u. 0 \<le> depth (take n u))"
  by (simp add: well_nested_def well_nested_from_depth)

lemma extract_candidate:
  assumes "CHR ''{'' \<notin> set pre" and "well_nested u"
  shows "extractJson (pre @ ''{'' @ u @ ''}'' @ post) = Candidate (''{'' @ u @ ''}'')"
proof -
  let ?t = "pre @ CHR ''{'' # u @ CHR ''}'' # post"
  have start: "indexOf ?t (CHR ''{'') = int (length pre)"
    using indexOf_from_first [OF assms(1), of _ 0] by (simp add: indexOf_def)
  have "scan (u @ CHR ''}'' # post) (Suc (length pre)) (int 0 + 1) = int (Suc (length pre) + length u)"
    using assms(2) unfolding well_nested_def by (rule scan_well_nested)
  then have stop: "scan (drop (length pre) ?t) (length pre) 0 = int (Suc (length pre) + length u)"
    by simp
  have len: "nat (int (Suc (length pre) + length u) + 1) - length pre = Suc (Suc (length u))"
    by simp
  have "substring ?t (length pre) (nat (int (Suc (length pre) + length u) + 1))
      = CHR ''{'' # u @ ''}''"
    unfolding substring_def len by simp
  with start stop show ?thesis
    by (simp add: extractJson_def Let_def del: scan.simps)
qed

lemma extract_no_candidate:
  "CHR ''{'' \<notin> set t \<Longrightarrow> extractJson t = NoCandidate"
  by (simp add: extractJson_def indexOf_def indexOf_from_absent)

lemma extract_incomplete:
  assumes "CHR ''{'' \<notin> set pre" and "never_closes (CHR ''{'' # rest)"
  shows "extractJson (pre @ CHR ''{'' # rest) = Incomplete"
proof -
  have start: "indexOf (pre @ CHR ''{'' # rest) (CHR ''{'') = int (length pre)"
    using indexOf_from_first [OF assms(1), of _ 0] by (simp add: indexOf_def)
  have "scan (CHR ''{'' # rest) (length pre) 0 = - 1"
    using assms(2) by (intro scan_never_zero) (simp add: never_closes_iff)
  with start show ?thesis
    by (simp add: extractJson_def Let_def del: scan.simps)
qed

text \<open>
  C2. Where the text is a prefix without an opening brace, then a balanced object, then
  anything, the extractor returns exactly that object, from the first opening brace to
  the closing brace that matches it. A text without an opening brace has no candidate,
  and a text whose depth, counted from its first opening brace on, never comes back to
  zero is reported as incomplete.
\<close>

theorem balanced_extraction:
  "(CHR ''{'' \<notin> set pre \<and> well_nested u \<longrightarrow>
      extractJson (pre @ ''{'' @ u @ ''}'' @ post) = Candidate (''{'' @ u @ ''}''))
   \<and> (CHR ''{'' \<notin> set t \<longrightarrow> extractJson t = NoCandidate)
   \<and> (CHR ''{'' \<notin> set pre' \<and> never_closes (CHR ''{'' # rest) \<longrightarrow>
      extractJson (pre' @ CHR ''{'' # rest) = Incomplete)"
  using extract_candidate extract_no_candidate extract_incomplete by blast

theorem balanced_extraction_witness:
  \<open>CHR ''{'' \<notin> set ''noise'' \<and> well_nested ''"a":{"b":1}''
   \<and> extractJson ''noise{"a":{"b":1}}tail'' = Candidate ''{"a":{"b":1}}''
   \<and> CHR ''{'' \<notin> set ''no brace here''
   \<and> extractJson ''no brace here'' = NoCandidate
   \<and> never_closes ''{"a":{"b":1}''
   \<and> extractJson ''noise{"a":{"b":1}'' = Incomplete\<close>
proof -
  have h1: \<open>CHR ''{'' \<notin> set ''noise'' \<and> well_nested ''"a":{"b":1}''\<close>
    by (simp add: well_nested_def)
  have h2: "CHR ''{'' \<notin> set ''no brace here''" by simp
  have h3: \<open>CHR ''{'' \<notin> set ''noise'' \<and> never_closes (CHR ''{'' # ''"a":{"b":1}'')\<close>
    by (simp add: never_closes_def depth_def upt_rec)
  from balanced_extraction [of "''noise''" \<open>''"a":{"b":1}''\<close> "''tail''" "''no brace here''"
      "''noise''" \<open>''"a":{"b":1}''\<close>] h1 h2 h3
  show ?thesis by simp
qed

section \<open>The budget calculator multiplies both ends of the band\<close>

lemma digit_cases: "d < 10 \<Longrightarrow> d \<in> {0, 1, 2, 3, 4, 5, 6, 7, 8, 9::nat}"
  by auto

lemma digit_value_digit_char: "d < 10 \<Longrightarrow> digit_value (digit_char d) = Some d"
  using digit_cases [of d] by (auto simp: digit_char_def digit_value_def)

lemma is_digit_digit_char: "d < 10 \<Longrightarrow> is_digit 10 (digit_char d)"
  by (simp add: is_digit_def digit_value_digit_char)

lemma is_digit_10_range: "is_digit 10 c \<Longrightarrow> 48 \<le> (of_char c :: nat) \<and> (of_char c :: nat) \<le> 57"
  by (auto simp: is_digit_def digit_value_def Let_def split: if_splits)

lemma is_digit_10_plain:
  assumes "is_digit 10 c"
  shows "\<not> isWhiteSpace c" and "c \<noteq> CHR ''-''" and "c \<noteq> CHR ''+''" and "c \<noteq> CHR ''$''"
    and "c \<noteq> CHR ''x''" and "c \<noteq> CHR ''X''"
  using is_digit_10_range [OF assms] by (auto simp: isWhiteSpace_def)

lemma decimal_digits: "decimal n \<noteq> [] \<and> list_all (is_digit 10) (decimal n)"
proof (induction n rule: decimal.induct)
  case (1 n)
  show ?case
  proof (cases "n < 10")
    case True
    then show ?thesis by (subst (1 2) decimal.simps) (simp add: is_digit_digit_char)
  next
    case False
    with 1 show ?thesis by (subst (1 2) decimal.simps) (simp add: is_digit_digit_char)
  qed
qed

lemma digits_value_snoc:
  "digits_value r (z @ [c]) = digits_value r z * r + the (digit_value c)"
  by (simp add: digits_value_def)

lemma digits_value_decimal: "digits_value 10 (decimal n) = n"
proof (induction n rule: decimal.induct)
  case (1 n)
  show ?case
  proof (cases "n < 10")
    case True
    then show ?thesis
      by (subst decimal.simps) (simp add: digits_value_def digit_value_digit_char)
  next
    case False
    with 1 show ?thesis
      by (subst decimal.simps) (simp add: digits_value_snoc digit_value_digit_char)
  qed
qed

lemma parseInt_digits:
  assumes "s \<noteq> []" and "list_all (is_digit 10) s"
  shows "parseInt s = Num (int (digits_value 10 s))"
proof -
  from assms obtain c cs where s: "s = c # cs" and c: "is_digit 10 c" and cs: "list_all (is_digit 10) cs"
    by (cases s) auto
  note plain = is_digit_10_plain [OF c]
  have ws: "dropWhile isWhiteSpace s = s"
    using plain(1) by (simp add: s)
  have sign: "\<not> startsWith s ''-''" "\<not> startsWith s ''+''"
    using plain(2,3) by (simp_all add: s)
  have no_hex: "\<not> startsWith s ''0x''" "\<not> startsWith s ''0X''"
    using cs is_digit_10_plain(5,6) by (cases cs; auto simp: s)+
  have all: "takeWhile (is_digit 10) s = s"
    using assms(2) by (simp add: list_all_iff)
  show ?thesis
    unfolding parseInt_def Let_def ws by (simp add: sign no_hex all assms(1))
qed

lemma parseInt_decimal: "parseInt (decimal n) = Num (int n)"
  using decimal_digits [of n] by (simp add: parseInt_digits digits_value_decimal)

lemma js_split_plain: "sep \<notin> set s \<Longrightarrow> js_split sep s = [s]"
  by (induction s) auto

lemma js_split_append: "sep \<notin> set a \<Longrightarrow> js_split sep (a @ sep # b) = a # js_split sep b"
  by (induction a) auto

lemma decimal_no_sign: "CHR ''-'' \<notin> set (decimal n)" "CHR ''$'' \<notin> set (decimal n)"
  using decimal_digits [of n] is_digit_10_plain(2,4) by (auto simp: list_all_iff)

lemma dailyBudgetRange_band:
  "js_split (CHR ''-'') (decimal lo @ CHR ''-'' # decimal hi) = [decimal lo, decimal hi]"
  by (simp add: js_split_append js_split_plain decimal_no_sign)

lemma remove1_absent: "x \<notin> set s \<Longrightarrow> remove1 x s = s"
  by (induction s) auto

lemma totalBudget_band:
  assumes "pre = [] \<or> pre = ''$''"
  shows "totalBudget (pre @ decimal lo @ ''-'' @ decimal hi) (int d)
    = ''$'' @ decimal (lo * d) @ ''-'' @ decimal (hi * d)"
proof -
  have "remove1 (CHR ''$'') (pre @ decimal lo @ ''-'' @ decimal hi) = decimal lo @ ''-'' @ decimal hi"
    using assms by (auto simp: remove1_absent decimal_no_sign)
  then show ?thesis
    by (simp add: totalBudget_def Let_def dailyBudgetRange_band parseInt_at_def parseInt_decimal
        flip: of_nat_mult)
qed

text \<open>
  C6. For a band written as two non-negative integers with a hyphen between them, with or
  without the dollar sign in front, and a positive number of days, the total budget is
  the dollar sign, the first integer times the days, a hyphen, and the second integer
  times the days. The bounds keep the products within the integers that the doubles of
  the source represent exactly.
\<close>

theorem budget_calculator:
  assumes "0 < d" and "int d \<le> MAX_SAFE_INTEGER"
    and "int (lo * d) \<le> MAX_SAFE_INTEGER" and "int (hi * d) \<le> MAX_SAFE_INTEGER"
  shows "totalBudget (''$'' @ decimal lo @ ''-'' @ decimal hi) (int d)
      = ''$'' @ decimal (lo * d) @ ''-'' @ decimal (hi * d)
    \<and> totalBudget (decimal lo @ ''-'' @ decimal hi) (int d)
      = ''$'' @ decimal (lo * d) @ ''-'' @ decimal (hi * d)"
  using totalBudget_band [of "''$''" lo hi d] totalBudget_band [of "[]" lo hi d] by simp

theorem budget_calculator_witness:
  "(0::nat) < 5 \<and> int 5 \<le> MAX_SAFE_INTEGER \<and> int (120 * 5) \<le> MAX_SAFE_INTEGER
    \<and> int (180 * 5) \<le> MAX_SAFE_INTEGER
    \<and> totalBudget ''$120-180'' 5 = ''$600-900'' \<and> totalBudget ''120-180'' 5 = ''$600-900''"
proof -
  have h: "(0::nat) < 5" "int 5 \<le> MAX_SAFE_INTEGER" "int (120 * 5) \<le> MAX_SAFE_INTEGER"
    "int (180 * 5) \<le> MAX_SAFE_INTEGER"
    by (simp_all add: MAX_SAFE_INTEGER_def)
  have d: "decimal 120 = ''120''" "decimal 180 = ''180''" "decimal 600 = ''600''" "decimal 900 = ''900''"
    by (simp_all add: decimal.simps digit_char_def)
  from budget_calculator [OF h] h d show ?thesis by simp
qed

section \<open>The synthesizer\<close>

lemma mode_valid:
  "valid_budget r \<Longrightarrow>
     mode r = Own (if budget r = Some ''budget'' then budget_profile
                   else if budget r = Some ''moderate'' then moderate_profile else luxury_profile)"
  by (auto simp: valid_budget_def mode_def get_property_def modeDetails_def key_text_def)

lemma budget_of_Own:
  "mode r = Own p \<Longrightarrow> budget_of r = Inr (p, totalBudget (daily p) (duration r))"
  by (simp add: budget_of_def)

lemma luxury_three_days: "totalBudget ''$180-250'' 3 = ''$540-750''"
  by (simp add: totalBudget_def parseInt_at_def parseInt_def Let_def isWhiteSpace_def
      is_digit_def digit_value_def digits_value_def decimal.simps digit_char_def)

lemma extract_empty: "extractJson [] = NoCandidate"
  by (simp add: extractJson_def indexOf_def)

text \<open>
  C8. For a request for Tokyo, three days, on the luxury budget, an empty sequence of
  events gives the plan of the mode Intense Adventure with the total budget \<open>$540-750\<close>,
  the fixed detailed plan that says the response was empty, and a debug record that
  holds the first 200 characters of the composed task followed by an ellipsis.
\<close>

theorem empty_response_tokyo:
  assumes "destination r = ''Tokyo''" and "duration r = 3" and "budget r = Some ''luxury''"
  shows "generate_plans parse [] r =
    Plan_response (Built
      \<lparr>plans =
         [\<lparr>mode_name = ''Intense Adventure'', mode_emoji = Fire, daily_attractions = ''6-8'',
           pace = ''Fast-paced'', daily_budget = ''$180-250'', total_budget = ''$540-750'',
           flexibility = ''Low'', description = ''Intense Adventure plan for your luxury budget.'',
           detailed_plan = ''Sample plan for Tokyo - AI response was empty''\<rparr>],
       selected_mode = ''Intense Adventure'',
       full_ai_response = ''No AI response received'',
       debug_info = Debug_empty 0 (take 200 (task r) @ ''...'') (Some ''luxury'')\<rparr>)"
proof -
  have "valid_budget r" using assms(3) by (simp add: valid_budget_def)
  then have "mode r = Own luxury_profile" using assms(3) by (simp add: mode_valid)
  then have "budget_of r = Inr (luxury_profile, ''$540-750'')"
    using assms(2) by (simp add: budget_of_Own luxury_profile_def luxury_three_days)
  then have "from_nothing r = Inr
      \<lparr>plans =
         [\<lparr>mode_name = ''Intense Adventure'', mode_emoji = Fire, daily_attractions = ''6-8'',
           pace = ''Fast-paced'', daily_budget = ''$180-250'', total_budget = ''$540-750'',
           flexibility = ''Low'', description = ''Intense Adventure plan for your luxury budget.'',
           detailed_plan = ''Sample plan for Tokyo - AI response was empty''\<rparr>],
       selected_mode = ''Intense Adventure'',
       full_ai_response = ''No AI response received'',
       debug_info = Debug_empty 0 (take 200 (task r) @ ''...'') (Some ''luxury'')\<rparr>"
    using assms by (simp add: from_nothing_def plan_of_def luxury_profile_def flexibility_of_def
        key_text_def substring_def)
  then show ?thesis
    by (simp add: generate_plans_def synthesize_def try_block_def consume_def extract_empty)
qed

theorem empty_response_tokyo_witness:
  "destination tokyo = ''Tokyo'' \<and> duration tokyo = 3 \<and> budget tokyo = Some ''luxury''
   \<and> generate_plans JSON_parse [] tokyo =
    Plan_response (Built
      \<lparr>plans =
         [\<lparr>mode_name = ''Intense Adventure'', mode_emoji = Fire, daily_attractions = ''6-8'',
           pace = ''Fast-paced'', daily_budget = ''$180-250'', total_budget = ''$540-750'',
           flexibility = ''Low'', description = ''Intense Adventure plan for your luxury budget.'',
           detailed_plan = ''Sample plan for Tokyo - AI response was empty''\<rparr>],
       selected_mode = ''Intense Adventure'',
       full_ai_response = ''No AI response received'',
       debug_info = Debug_empty 0
         (''Create a Intense Adventure travel plan for Tokyo (3 days, 2 travelers).'' @ nl @ nl
          @ ''Budget: luxury'' @ nl @ ''Interests: food, temples'' @ nl @ ''Food: Any'' @ nl
          @ ''Transport: public_transport'' @ nl @ nl
          @ ''Generate a detailed day-by-day itinerary with at'' @ ''...'')
         (Some ''luxury'')\<rparr>)"
proof -
  have h: "destination tokyo = ''Tokyo''" "duration tokyo = 3" "budget tokyo = Some ''luxury''"
    by (simp_all add: tokyo_def)
  have "selectedMode tokyo = JString ''Intense Adventure''"
    by (simp add: selectedMode_def tokyo_def get_property_def budgetToMode_def key_text_def)
  then have "take 200 (task tokyo) =
      ''Create a Intense Adventure travel plan for Tokyo (3 days, 2 travelers).'' @ nl @ nl
      @ ''Budget: luxury'' @ nl @ ''Interests: food, temples'' @ nl @ ''Food: Any'' @ nl
      @ ''Transport: public_transport'' @ nl @ nl
      @ ''Generate a detailed day-by-day itinerary with at''"
    by (simp add: task_def tokyo_def nl_def key_text_def or_Any_def decimal.simps digit_char_def)
  with empty_response_tokyo [OF h, of JSON_parse] h show ?thesis by simp
qed

text \<open>
  C4. When the extractor finds a candidate and the strict parse of it succeeds, the parsed
  value alone is the result: no later strategy runs, whatever else the text holds, a
  \<^verbatim>\<open>"travel_plan"\<close> pattern included.
\<close>

theorem strict_parse_wins:
  assumes "extractJson t = Candidate c" and "parse c = Inr v"
  shows "synthesize parse t r = Inr (Parsed v)"
  using assms by (simp add: synthesize_def try_block_def parse_candidate_def)

theorem strict_parse_wins_witness:
  \<open>extractJson ''See {"days":3} and "travel_plan": {"city":"Tokyo"}'' = Candidate ''{"days":3}''
   \<and> JSON_parse ''{"days":3}'' = Inr (Object [(''days'', Numeral ''3'')])
   \<and> travelPlanMatch ''See {"days":3} and "travel_plan": {"city":"Tokyo"}''
       = Some ''"travel_plan": {"city":"Tokyo"}''
   \<and> synthesize JSON_parse ''See {"days":3} and "travel_plan": {"city":"Tokyo"}'' tokyo
       = Inr (Parsed (Object [(''days'', Numeral ''3'')]))\<close>
proof -
  have c: \<open>extractJson ''See {"days":3} and "travel_plan": {"city":"Tokyo"}'' = Candidate ''{"days":3}''\<close>
    by (simp add: extractJson_def indexOf_def substring_def)
  have v: \<open>JSON_parse ''{"days":3}'' = Inr (Object [(''days'', Numeral ''3'')])\<close>
    by code_simp
  have m: \<open>travelPlanMatch ''See {"days":3} and "travel_plan": {"city":"Tokyo"}''
       = Some ''"travel_plan": {"city":"Tokyo"}''\<close>
    by code_simp
  from strict_parse_wins [where parse = JSON_parse and r = tokyo, OF c v] c v m show ?thesis by simp
qed

text \<open>
  C5, as the code has it. After a strict parse that failed, the original failure is raised
  again when the candidate holds no \<^verbatim>\<open>"travel_plan"\<close> object; when it holds one and the
  parse of the wrapped match fails, the failure that goes on is the one of that second
  parse.
\<close>

theorem relaxed_parse_failure:
  assumes "parse c = Inl m"
  shows "(travelPlanMatch c = None \<longrightarrow> parse_candidate parse c = Inl (SyntaxError m))
    \<and> (\<forall>tp m'. travelPlanMatch c = Some tp \<and> parse (''{'' @ tp @ ''}'') = Inl m'
          \<longrightarrow> parse_candidate parse c = Inl (SyntaxError m'))"
  using assms by (simp add: parse_candidate_def)

theorem relaxed_parse_failure_witness:
  \<open>JSON_parse ''{oops}'' = Inl ''Unexpected token in JSON at position 1''
   \<and> travelPlanMatch ''{oops}'' = None
   \<and> parse_candidate JSON_parse ''{oops}'' = Inl (SyntaxError ''Unexpected token in JSON at position 1'')
   \<and> JSON_parse ''{"a":1,"travel_plan":{x}}'' = Inl ''Unexpected token in JSON at position 22''
   \<and> travelPlanMatch ''{"a":1,"travel_plan":{x}}'' = Some ''"travel_plan":{x}''
   \<and> JSON_parse ''{"travel_plan":{x}}'' = Inl ''Unexpected token in JSON at position 16''
   \<and> parse_candidate JSON_parse ''{"a":1,"travel_plan":{x}}''
       = Inl (SyntaxError ''Unexpected token in JSON at position 16'')\<close>
proof -
  have a: \<open>JSON_parse ''{oops}'' = Inl ''Unexpected token in JSON at position 1''\<close>
    by code_simp
  have b: \<open>travelPlanMatch ''{oops}'' = None\<close>
    by code_simp
  have c: \<open>JSON_parse ''{"a":1,"travel_plan":{x}}'' = Inl ''Unexpected token in JSON at position 22''\<close>
    by code_simp
  have d: \<open>travelPlanMatch ''{"a":1,"travel_plan":{x}}'' = Some ''"travel_plan":{x}''\<close>
    by code_simp
  have e: \<open>JSON_parse ''{"travel_plan":{x}}'' = Inl ''Unexpected token in JSON at position 16''\<close>
    by code_simp
  from relaxed_parse_failure [where parse = JSON_parse, OF a] relaxed_parse_failure [where parse = JSON_parse, OF c]
    a b c d e
  show ?thesis by simp
qed

text \<open>
  A candidate on which the original failure does not survive: the strict parse stops at
  position 22, and the failure that leaves the relaxed attempt is the one of the second
  parse, at position 16.
\<close>

theorem relaxed_failure_replaces_original:
  \<open>JSON_parse ''{"a":1,"travel_plan":{x}}'' = Inl ''Unexpected token in JSON at position 22''
   \<and> parse_candidate JSON_parse ''{"a":1,"travel_plan":{x}}''
       = Inl (SyntaxError ''Unexpected token in JSON at position 16'')\<close>
proof -
  have c: \<open>JSON_parse ''{"a":1,"travel_plan":{x}}'' = Inl ''Unexpected token in JSON at position 22''\<close>
    by code_simp
  have d: \<open>travelPlanMatch ''{"a":1,"travel_plan":{x}}'' = Some ''"travel_plan":{x}''\<close>
    by code_simp
  have e: \<open>JSON_parse ''{"travel_plan":{x}}'' = Inl ''Unexpected token in JSON at position 16''\<close>
    by code_simp
  from c d e show ?thesis by (simp add: parse_candidate_def)
qed

lemma synthesize_incomplete:
  assumes "mode r = Own p" and "extractJson t = Incomplete"
  shows "synthesize parse t r = Inr (Built
     \<lparr>plans = [plan_of p (totalBudget (daily p) (duration r)) r
         (''AI-generated '' @ toLowerCase (name p) @ '' plan for '' @ to_text (extractedDestination t r)) t],
      selected_mode = name p, full_ai_response = t,
      debug_info = Debug_fallback (length t) ''Incomplete JSON in response''
        (extractedDestination t r) (extractedDuration t r) (extractedMode t r) True True\<rparr>)"
  using assms
  by (simp add: synthesize_def try_block_def catch_block_def fallback_plan_def budget_of_Own)

text \<open>
  C9. When the accumulated text has an opening brace after which the depth never comes
  back to zero, and the budget is one of the three tiers, the handler still answers with
  a plan: its detailed plan is the whole accumulated text and its debug record holds the
  message \<^verbatim>\<open>Incomplete JSON in response\<close> as the parse error.
\<close>

theorem incomplete_json_recovered:
  assumes "valid_budget r" and "CHR ''{'' \<notin> set pre" and "never_closes (CHR ''{'' # rest)"
    and "consume events = pre @ CHR ''{'' # rest"
  shows "\<exists>pd p. generate_plans parse events r = Plan_response (Built pd)
    \<and> plans pd = [p] \<and> detailed_plan p = pre @ CHR ''{'' # rest
    \<and> parse_error (debug_info pd) = Some ''Incomplete JSON in response''"
proof -
  from assms(1) obtain p where p: "mode r = Own p"
    by (simp add: mode_valid)
  have "extractJson (pre @ CHR ''{'' # rest) = Incomplete"
    using assms(2,3) by (rule extract_incomplete)
  from synthesize_incomplete [OF p this, of parse] assms(4) show ?thesis
    by (simp add: generate_plans_def plan_of_def)
qed

theorem incomplete_json_recovered_witness:
  \<open>valid_budget tokyo \<and> CHR ''{'' \<notin> set ''Here is the plan: ''
   \<and> never_closes ''{"mode": "Flow", oops''
   \<and> consume [text_event ''Here is the '', text_event ''plan: {"mode": "Flow", oops'']
       = ''Here is the plan: {"mode": "Flow", oops''
   \<and> (\<exists>pd p. generate_plans JSON_parse
          [text_event ''Here is the '', text_event ''plan: {"mode": "Flow", oops''] tokyo
          = Plan_response (Built pd)
        \<and> plans pd = [p] \<and> detailed_plan p = ''Here is the plan: {"mode": "Flow", oops''
        \<and> parse_error (debug_info pd) = Some ''Incomplete JSON in response'')\<close>
proof -
  have h1: "valid_budget tokyo" by (simp add: valid_budget_def tokyo_def)
  have h2: "CHR ''{'' \<notin> set ''Here is the plan: ''" by simp
  have h3: \<open>never_closes (CHR ''{'' # ''"mode": "Flow", oops'')\<close>
    by (simp add: never_closes_def depth_def upt_rec)
  have h4: \<open>consume [text_event ''Here is the '', text_event ''plan: {"mode": "Flow", oops'']
       = ''Here is the plan: '' @ CHR ''{'' # ''"mode": "Flow", oops''\<close>
    by (simp add: consume_def on_event_def text_event_def)
  from incomplete_json_recovered [where parse = JSON_parse, OF h1 h2 h3 h4] h1 h2 h3 h4
  show ?thesis by simp
qed

lemma catch_block_total:
  "mode r = Own p \<Longrightarrow> \<exists>pd pl. catch_block e t r = Inr pd \<and> plans pd = [pl]"
  by (simp add: catch_block_def fallback_plan_def budget_of_Own)

text \<open>
  C1, as the code has it. For every text and every request whose budget is one of the
  three tiers, the synthesizer returns exactly one result and raises nothing: either the
  value that the strict or the relaxed parse returned, taken as it is, or a result it
  built itself, which holds exactly one plan.
\<close>

theorem synthesis_total:
  assumes "valid_budget r"
  shows "(\<exists>v. synthesize parse t r = Inr (Parsed v))
    \<or> (\<exists>pd p. synthesize parse t r = Inr (Built pd) \<and> plans pd = [p])"
proof -
  from assms obtain p where p: "mode r = Own p"
    by (simp add: mode_valid)
  note caught = catch_block_total [OF p]
  show ?thesis
  proof (cases "extractJson t")
    case NoCandidate
    then show ?thesis
      by (simp add: synthesize_def try_block_def from_text_def from_nothing_def budget_of_Own [OF p])
  next
    case Incomplete
    with caught [of "Error ''Incomplete JSON in response''" t] show ?thesis
      by (auto simp: synthesize_def try_block_def)
  next
    case (Candidate c)
    show ?thesis
    proof (cases "parse_candidate parse c")
      case (Inl e)
      with Candidate caught [of e t] show ?thesis
        by (auto simp: synthesize_def try_block_def)
    next
      case (Inr v)
      with Candidate show ?thesis
        by (simp add: synthesize_def try_block_def)
    qed
  qed
qed

theorem synthesis_total_witness:
  "valid_budget tokyo
   \<and> ((\<exists>v. synthesize JSON_parse ''Day 1: Asakusa'' tokyo = Inr (Parsed v))
     \<or> (\<exists>pd p. synthesize JSON_parse ''Day 1: Asakusa'' tokyo = Inr (Built pd) \<and> plans pd = [p]))"
proof -
  have h: "valid_budget tokyo" by (simp add: valid_budget_def tokyo_def)
  from synthesis_total [OF h] h show ?thesis by blast
qed

text \<open>
  A text whose result holds no plan: \<^verbatim>\<open>{}\<close> parses, and the result is that empty object.
\<close>

theorem parsed_object_without_plan:
  "synthesize JSON_parse ''{}'' tokyo = Inr (Parsed (Object []))"
proof -
  have "JSON_parse ''{}'' = Inr (Object [])"
    by code_simp
  then show ?thesis
    by (simp add: synthesize_def try_block_def parse_candidate_def extractJson_def indexOf_def
        substring_def)
qed

lemma mode_cong: "budget r = budget r' \<Longrightarrow> mode r = mode r'"
  by (simp add: mode_def)

lemma budget_of_cong:
  "budget r = budget r' \<Longrightarrow> duration r = duration r' \<Longrightarrow> budget_of r = budget_of r'"
  by (cases "mode r'") (simp_all add: budget_of_def mode_cong [of r r'])

lemma catch_block_budget_fields:
  "map_sum id (map budget_fields \<circ> plans) (catch_block e t r)
   = map_sum id (\<lambda>(p, tb). [(daily p, tb, name p, mode_profile.pace p, attractions p, flexibility_of r)])
       (budget_of r)"
  by (cases "budget_of r")
    (auto simp: catch_block_def fallback_plan_def plan_of_def budget_fields_def)

text \<open>
  C10. In the catch-all tier the three recovered values reach only the description and
  the debug record: everything else of the result is the same whatever they are. The
  daily budget, the total budget, the mode name, the pace, the attractions and the
  flexibility depend on the budget tier and the duration of the request alone, so no
  text, and no duration recovered from it, changes them.
\<close>

theorem recovered_values_frame:
  "map_sum id outside_description (fallback_plan e t r d1 u1 m1)
     = map_sum id outside_description (fallback_plan e t r d2 u2 m2)
   \<and> (budget r = budget r' \<and> duration r = duration r' \<longrightarrow>
        map_sum id (map budget_fields \<circ> plans) (catch_block e t r)
      = map_sum id (map budget_fields \<circ> plans) (catch_block e' t' r'))"
proof
  show "map_sum id outside_description (fallback_plan e t r d1 u1 m1)
     = map_sum id outside_description (fallback_plan e t r d2 u2 m2)"
    by (cases "budget_of r") (auto simp: fallback_plan_def outside_description_def plan_of_def)
next
  show "budget r = budget r' \<and> duration r = duration r' \<longrightarrow>
        map_sum id (map budget_fields \<circ> plans) (catch_block e t r)
      = map_sum id (map budget_fields \<circ> plans) (catch_block e' t' r')"
  proof (intro impI, elim conjE)
    assume same: "budget r = budget r'" "duration r = duration r'"
    then have "budget_of r = budget_of r'"
      by (rule budget_of_cong)
    moreover from same(1) have "flexibility_of r = flexibility_of r'"
      by (simp add: flexibility_of_def)
    ultimately show "map_sum id (map budget_fields \<circ> plans) (catch_block e t r)
      = map_sum id (map budget_fields \<circ> plans) (catch_block e' t' r')"
      by (simp add: catch_block_budget_fields)
  qed
qed

theorem recovered_values_frame_witness:
  \<open>extractedDuration ''{"duration": "9 days", oops'' (tokyo\<lparr>budget := Some ''moderate''\<rparr>)
     = JString ''9 days''
   \<and> budget (tokyo\<lparr>budget := Some ''moderate''\<rparr>)
     = budget (tokyo\<lparr>budget := Some ''moderate'', destination := ''Kyoto''\<rparr>)
   \<and> duration (tokyo\<lparr>budget := Some ''moderate''\<rparr>)
     = duration (tokyo\<lparr>budget := Some ''moderate'', destination := ''Kyoto''\<rparr>)
   \<and> map_sum id (map budget_fields \<circ> plans)
       (catch_block (Error ''Incomplete JSON in response'') ''{"duration": "9 days", oops''
          (tokyo\<lparr>budget := Some ''moderate''\<rparr>))
     = Inr [(''$120-180'', ''$360-540'', ''Moderate Explorer'', ''Balanced'', ''4-5'', ''Medium'')]
   \<and> map_sum id (map budget_fields \<circ> plans)
       (catch_block (SyntaxError ''Unexpected token in JSON at position 1'') ''{oops}''
          (tokyo\<lparr>budget := Some ''moderate'', destination := ''Kyoto''\<rparr>))
     = Inr [(''$120-180'', ''$360-540'', ''Moderate Explorer'', ''Balanced'', ''4-5'', ''Medium'')]\<close>
proof -
  let ?r = "tokyo\<lparr>budget := Some ''moderate''\<rparr>"
  let ?r' = "tokyo\<lparr>budget := Some ''moderate'', destination := ''Kyoto''\<rparr>"
  have recovered: \<open>extractedDuration ''{"duration": "9 days", oops'' ?r = JString ''9 days''\<close>
    by code_simp
  have same: "budget ?r = budget ?r' \<and> duration ?r = duration ?r'"
    by simp
  have one: \<open>map_sum id (map budget_fields \<circ> plans)
       (catch_block (Error ''Incomplete JSON in response'') ''{"duration": "9 days", oops'' ?r)
     = Inr [(''$120-180'', ''$360-540'', ''Moderate Explorer'', ''Balanced'', ''4-5'', ''Medium'')]\<close>
    by code_simp
  from recovered_values_frame [of "Error ''Incomplete JSON in response''"
      \<open>''{"duration": "9 days", oops''\<close> ?r _ _ _ _ _ _ ?r'
      "SyntaxError ''Unexpected token in JSON at position 1''" "''{oops}''"] same
  have \<open>map_sum id (map budget_fields \<circ> plans)
       (catch_block (Error ''Incomplete JSON in response'') ''{"duration": "9 days", oops'' ?r)
     = map_sum id (map budget_fields \<circ> plans)
       (catch_block (SyntaxError ''Unexpected token in JSON at position 1'') ''{oops}'' ?r')\<close>
    by blast
  with recovered same one show ?thesis by simp
qed

text \<open>
  C3 on the code. An unrecognized tier and an absent one get the name, the pace, the
  attractions and the band of the moderate profile, but the flexibility \<^verbatim>\<open>Low\<close>, where the
  moderate tier itself gets \<^verbatim>\<open>Medium\<close>; and a tier named like a member of
  \<^verbatim>\<open>Object.prototype\<close> gets no profile at all, so the request fails.
\<close>

theorem unrecognized_tier_flexibility:
  "map_sum id (map budget_fields \<circ> built_plans)
      (synthesize JSON_parse ''Day 1: Asakusa'' (tokyo\<lparr>budget := Some ''premium''\<rparr>))
     = Inr [(''$120-180'', ''$360-540'', ''Moderate Explorer'', ''Balanced'', ''4-5'', ''Low'')]
   \<and> map_sum id (map budget_fields \<circ> built_plans)
      (synthesize JSON_parse ''Day 1: Asakusa'' (tokyo\<lparr>budget := None\<rparr>))
     = Inr [(''$120-180'', ''$360-540'', ''Moderate Explorer'', ''Balanced'', ''4-5'', ''Low'')]
   \<and> map_sum id (map budget_fields \<circ> built_plans)
      (synthesize JSON_parse ''Day 1: Asakusa'' (tokyo\<lparr>budget := Some ''moderate''\<rparr>))
     = Inr [(''$120-180'', ''$360-540'', ''Moderate Explorer'', ''Balanced'', ''4-5'', ''Medium'')]
   \<and> generate_plans JSON_parse [text_event ''Day 1: Asakusa''] (tokyo\<lparr>budget := Some ''toString''\<rparr>)
     = Error_response ''Failed to generate plans'' (message no_daily)"
  by code_simp

section \<open>The bound of the parser is large enough\<close>

text \<open>
  Every call of the parser consumes input before it recurs, so a bound above twice the
  length of the text is never used up: a larger one gives the same result.
\<close>

lemma string_body_shorter: "string_body cs = Inr (b, rest) \<Longrightarrow> length rest < length cs"
proof (induction cs arbitrary: b rule: string_body.induct)
  case 1
  then show ?case by simp
next
  case (2 c cs)
  then show ?case
    by (auto split: if_splits list.splits sum.splits simp: map_sum_def less_Suc_eq)
qed

lemma digits1_shorter: "digits1 s = Inr (ds, rest) \<Longrightarrow> length rest < length s"
proof -
  assume a: "digits1 s = Inr (ds, rest)"
  then have ne: "takeWhile is_decimal_digit s \<noteq> []" and r: "rest = dropWhile is_decimal_digit s"
    by (auto simp: digits1_def split: if_splits)
  have "length (takeWhile is_decimal_digit s) + length (dropWhile is_decimal_digit s) = length s"
    by (metis length_append takeWhile_dropWhile_id)
  with ne r show ?thesis by (cases "takeWhile is_decimal_digit s") auto
qed

lemma startsWith_nonempty: "startsWith s (p # ps) \<Longrightarrow> s \<noteq> []"
  by (cases s) auto

lemma number_token_shorter: "number_token s = Inr (t, rest) \<Longrightarrow> length rest < length s"
  unfolding number_token_def Let_def
  by (auto split: if_splits sum.splits prod.splits simp: map_sum_def
      dest!: digits1_shorter startsWith_nonempty)


lemma after_first:
  "startsWith (dropWhile P s) (p # ps) \<Longrightarrow> length (dropWhile Q (drop 1 (dropWhile P s))) < length s"
proof -
  assume a: "startsWith (dropWhile P s) (p # ps)"
  then have "dropWhile P s \<noteq> []" by (rule startsWith_nonempty)
  then have "length (drop 1 (dropWhile P s)) < length (dropWhile P s)" by simp
  moreover have "length (dropWhile Q (drop 1 (dropWhile P s))) \<le> length (drop 1 (dropWhile P s))"
    by (rule length_dropWhile_le)
  moreover have "length (dropWhile P s) \<le> length s" by (rule length_dropWhile_le)
  ultimately show ?thesis by linarith
qed

lemma drop1_shorter: "startsWith s (p # ps) \<Longrightarrow> length (drop 1 s) < length s"
  by (cases s) auto

lemma map_sum_Inr_iff: "map_sum f g x = Inr y \<longleftrightarrow> (\<exists>z. x = Inr z \<and> y = g z)"
  by (cases x) auto

lemma parse_shorter:
  "parse_value n s = Inr (v, rest) \<Longrightarrow> length rest < length s"
  "parse_members n s = Inr (ms, rest) \<Longrightarrow> length rest < length s"
  "parse_elements n s = Inr (vs, rest) \<Longrightarrow> length rest < length s"
proof (induction n s and n s and n s arbitrary: v rest and ms rest and vs rest
    rule: parse_value_parse_members_parse_elements.induct)
  case (1 s)
  then show ?case by simp
next
  case (2 n s)
  let ?s1 = "dropWhile json_ws s"
  let ?s2 = "dropWhile json_ws (drop 1 ?s1)"
  have le: "length ?s1 \<le> length s" by (rule length_dropWhile_le)
  have first: "\<And>p ps. startsWith ?s1 (p # ps) \<Longrightarrow> length ?s2 < length s"
    by (rule after_first)
  consider (obj) "startsWith ?s1 ''{''"
    | (arr) "\<not> startsWith ?s1 ''{''" "startsWith ?s1 ''[''"
    | (other) "\<not> startsWith ?s1 ''{''" "\<not> startsWith ?s1 ''[''"
    by blast
  then show ?case
  proof cases
    case obj
    show ?thesis
    proof (cases "startsWith ?s2 ''}''")
      case True
      with obj "2.prems" have "rest = drop 1 ?s2" by (simp add: Let_def)
      with first [OF obj] show ?thesis by simp
    next
      case False
      with obj "2.prems" obtain ms where "parse_members n ?s2 = Inr (ms, rest)"
        by (auto simp: Let_def map_sum_Inr_iff)
      from "2.IH"(1) [OF refl obj refl False this] first [OF obj] show ?thesis by simp
    qed
  next
    case arr
    show ?thesis
    proof (cases "startsWith ?s2 '']''")
      case True
      with arr "2.prems" have "rest = drop 1 ?s2" by (simp add: Let_def)
      with first [OF arr(2)] show ?thesis by simp
    next
      case False
      with arr "2.prems" obtain vs where "parse_elements n ?s2 = Inr (vs, rest)"
        by (auto simp: Let_def map_sum_Inr_iff)
      from "2.IH"(2) [OF refl arr refl False this] first [OF arr(2)] show ?thesis by simp
    qed
  next
    case other
    with "2.prems" have
      "(\<exists>b. string_body (drop 1 ?s1) = Inr (b, rest) \<and> startsWith ?s1 [CHR 0x22])
       \<or> (startsWith ?s1 ''true'' \<and> rest = drop 4 ?s1)
       \<or> (startsWith ?s1 ''false'' \<and> rest = drop 5 ?s1)
       \<or> (startsWith ?s1 ''null'' \<and> rest = drop 4 ?s1)
       \<or> (\<exists>t. number_token ?s1 = Inr (t, rest))"
      by (auto simp: Let_def map_sum_Inr_iff split: if_splits)
    moreover have "\<And>p ps k. startsWith ?s1 (p # ps) \<Longrightarrow> 0 < k \<Longrightarrow> length (drop k ?s1) < length s"
    proof -
      fix p ps and k :: nat
      assume "startsWith ?s1 (p # ps)" and "0 < k"
      then have "length (drop k ?s1) < length ?s1"
        by (cases ?s1) auto
      with le show "length (drop k ?s1) < length s" by linarith
    qed
    ultimately show ?thesis
      using le by (auto dest!: string_body_shorter number_token_shorter)
  qed
next
  case (3 s)
  then show ?case by simp
next
  case (4 n s)
  from "4.prems" obtain k s1 v s3 where
    q: "startsWith s [CHR 0x22]" and
    k: "string_body (drop 1 s) = Inr (k, s1)" and
    c: "startsWith (dropWhile json_ws s1) '':''" and
    v: "parse_value n (drop 1 (dropWhile json_ws s1)) = Inr (v, s3)" and
    fin: "(startsWith (dropWhile json_ws s3) '','' \<and>
            (\<exists>ms'. parse_members n (dropWhile json_ws (drop 1 (dropWhile json_ws s3))) = Inr (ms', rest)))
          \<or> (startsWith (dropWhile json_ws s3) ''}'' \<and> rest = drop 1 (dropWhile json_ws s3))"
    by (auto simp: Let_def map_sum_Inr_iff split: if_splits sum.splits prod.splits)
  have a: "length s1 < length s"
    using string_body_shorter [OF k] by simp
  have b: "length s3 < length s1"
    using "4.IH"(1) [OF q k refl refl c v]
      length_dropWhile_le [of json_ws s1] by simp
  from fin show ?case
  proof
    assume "startsWith (dropWhile json_ws s3) '','' \<and>
            (\<exists>ms'. parse_members n (dropWhile json_ws (drop 1 (dropWhile json_ws s3))) = Inr (ms', rest))"
    then obtain ms' where comma: "startsWith (dropWhile json_ws s3) '',''"
      and more: "parse_members n (dropWhile json_ws (drop 1 (dropWhile json_ws s3))) = Inr (ms', rest)"
      by blast
    from "4.IH"(2) [OF q k refl refl c v refl refl comma more] after_first [OF comma, of json_ws] a b
    show ?thesis by simp
  next
    assume "startsWith (dropWhile json_ws s3) ''}'' \<and> rest = drop 1 (dropWhile json_ws s3)"
    with a b length_dropWhile_le [of json_ws s3] show ?thesis by simp
  qed
next
  case (5 s)
  then show ?case by simp
next
  case (6 n s)
  from "6.prems" obtain v s1 where
    v: "parse_value n s = Inr (v, s1)" and
    fin: "(startsWith (dropWhile json_ws s1) '','' \<and>
            (\<exists>vs'. parse_elements n (drop 1 (dropWhile json_ws s1)) = Inr (vs', rest)))
          \<or> (startsWith (dropWhile json_ws s1) '']'' \<and> rest = drop 1 (dropWhile json_ws s1))"
    by (auto simp: Let_def map_sum_Inr_iff split: if_splits sum.splits prod.splits)
  have a: "length s1 < length s"
    by (rule "6.IH"(1) [OF v])
  from fin show ?case
  proof
    assume "startsWith (dropWhile json_ws s1) '','' \<and>
            (\<exists>vs'. parse_elements n (drop 1 (dropWhile json_ws s1)) = Inr (vs', rest))"
    then obtain vs' where comma: "startsWith (dropWhile json_ws s1) '',''"
      and more: "parse_elements n (drop 1 (dropWhile json_ws s1)) = Inr (vs', rest)"
      by blast
    from "6.IH"(2) [OF v refl refl comma more] a length_dropWhile_le [of json_ws s1]
    show ?thesis by simp
  next
    assume "startsWith (dropWhile json_ws s1) '']'' \<and> rest = drop 1 (dropWhile json_ws s1)"
    with a length_dropWhile_le [of json_ws s1] show ?thesis by simp
  qed
qed


lemma fuel_step:
  "(2 * length s + 1 \<le> n \<longrightarrow> parse_value (Suc n) s = parse_value n s)
   \<and> (2 * length s + 1 \<le> n \<longrightarrow> parse_members (Suc n) s = parse_members n s)
   \<and> (2 * length s + 2 \<le> n \<longrightarrow> parse_elements (Suc n) s = parse_elements n s)"
proof (induction n arbitrary: s)
  case 0
  show ?case by simp
next
  case (Suc n)
  note vIH = Suc.IH [THEN conjunct1, rule_format]
    and mIH = Suc.IH [THEN conjunct2, THEN conjunct1, rule_format]
    and eIH = Suc.IH [THEN conjunct2, THEN conjunct2, rule_format]
  have "2 * length s + 1 \<le> Suc n \<Longrightarrow> parse_value (Suc (Suc n)) s = parse_value (Suc n) s"
  proof -
    assume big: "2 * length s + 1 \<le> Suc n"
    let ?s1 = "dropWhile json_ws s"
    let ?s2 = "dropWhile json_ws (drop 1 ?s1)"
    show ?thesis
    proof (cases "startsWith ?s1 ''{''")
      case True
      have "parse_members (Suc n) ?s2 = parse_members n ?s2"
        using after_first [OF True, of json_ws] big by (intro mIH) simp
      with True show ?thesis by (simp add: Let_def)
    next
      case no_obj: False
      show ?thesis
      proof (cases "startsWith ?s1 ''[''")
        case True
        have "parse_elements (Suc n) ?s2 = parse_elements n ?s2"
          using after_first [OF True, of json_ws] big by (intro eIH) simp
        with no_obj True show ?thesis by (simp add: Let_def)
      next
        case False
        with no_obj show ?thesis by (simp add: Let_def)
      qed
    qed
  qed
  moreover
  have "2 * length s + 1 \<le> Suc n \<Longrightarrow> parse_members (Suc (Suc n)) s = parse_members (Suc n) s"
  proof (cases "startsWith s [CHR 0x22]")
    case False
    then show ?thesis by simp
  next
    case quote: True
    assume big: "2 * length s + 1 \<le> Suc n"
    show ?thesis
    proof (cases "string_body (drop 1 s)")
      case (Inl a)
      with quote show ?thesis by simp
    next
      case (Inr ks)
      then obtain k s1 where k: "string_body (drop 1 s) = Inr (k, s1)"
        by (cases ks) auto
      let ?s2 = "dropWhile json_ws s1"
      have s1: "length s1 < length s"
        using string_body_shorter [OF k] by simp
      show ?thesis
      proof (cases "startsWith ?s2 '':''")
        case False
        with quote k show ?thesis by (simp add: Let_def)
      next
        case colon: True
        have arg: "length (drop 1 ?s2) < length s1"
          using drop1_shorter [OF colon] length_dropWhile_le [of json_ws s1] by linarith
        have veq: "parse_value (Suc n) (drop 1 ?s2) = parse_value n (drop 1 ?s2)"
          using arg s1 big by (intro vIH) linarith
        show ?thesis
        proof (cases "parse_value n (drop 1 ?s2)")
          case (Inl a)
          with quote k colon veq show ?thesis by (simp add: Let_def)
        next
          case (Inr vr)
          then obtain v s3 where v: "parse_value n (drop 1 ?s2) = Inr (v, s3)"
            by (cases vr) auto
          let ?s4 = "dropWhile json_ws s3"
          have s3: "length s3 < length (drop 1 ?s2)"
            by (rule parse_shorter(1) [OF v])
          have "length (dropWhile json_ws (drop 1 ?s4)) \<le> length s3"
            using length_dropWhile_le [of json_ws "drop 1 ?s4"] length_dropWhile_le [of json_ws s3]
            by simp
          with s3 arg s1 big
          have meq: "parse_members (Suc n) (dropWhile json_ws (drop 1 ?s4))
              = parse_members n (dropWhile json_ws (drop 1 ?s4))"
            by (intro mIH) linarith
          from quote k colon veq v meq show ?thesis by (simp add: Let_def)
        qed
      qed
    qed
  qed
  moreover
  have "2 * length s + 2 \<le> Suc n \<Longrightarrow> parse_elements (Suc (Suc n)) s = parse_elements (Suc n) s"
  proof -
    assume big: "2 * length s + 2 \<le> Suc n"
    have veq: "parse_value (Suc n) s = parse_value n s"
      using big by (intro vIH) linarith
    show ?thesis
    proof (cases "parse_value n s")
      case (Inl a)
      with veq show ?thesis by simp
    next
      case (Inr vr)
      then obtain v s1 where v: "parse_value n s = Inr (v, s1)"
        by (cases vr) auto
      let ?s2 = "dropWhile json_ws s1"
      have s1: "length s1 < length s"
        by (rule parse_shorter(1) [OF v])
      show ?thesis
      proof (cases "startsWith ?s2 '',''")
        case False
        with veq v show ?thesis by (simp add: Let_def)
      next
        case comma: True
        have "length (drop 1 ?s2) < length s1"
          using drop1_shorter [OF comma] length_dropWhile_le [of json_ws s1] by linarith
        with s1 big have eeq: "parse_elements (Suc n) (drop 1 ?s2) = parse_elements n (drop 1 ?s2)"
          by (intro eIH) linarith
        from veq v comma eeq show ?thesis by (simp add: Let_def)
      qed
    qed
  qed
  ultimately show ?case by blast
qed

lemma fuel_enough: "2 * length s + 1 \<le> n \<Longrightarrow> parse_value (n + k) s = parse_value n s"
proof (induction k)
  case 0
  show ?case by simp
next
  case (Suc k)
  from Suc.prems have "2 * length s + 1 \<le> n + k" by simp
  with fuel_step [of s "n + k"] Suc show ?case by simp
qed

lemma JSON_parse_bound:
  "2 * length s < n \<Longrightarrow> parse_value n s = parse_value (Suc (2 * length s)) s"
  using fuel_enough [of s "Suc (2 * length s)" "n - Suc (2 * length s)"] by simp

end
